theory Spec2Isabelle
  imports Complex_Main
begin

section \<open>Python values shared by the module\<close>

text \<open>
  An exception object, as far as \<^verbatim>\<open>agents/agent_orchestrator.py\<close> looks at it:
  whether its class derives from \<^verbatim>\<open>Exception\<close> (what an \<^verbatim>\<open>except Exception\<close>
  clause tests; \<^verbatim>\<open>KeyboardInterrupt\<close> and \<^verbatim>\<open>SystemExit\<close> do not), the name of
  its class, and the text \<^verbatim>\<open>str(e)\<close> that an f-string prints for it.
  A call that may raise returns \<open>exc + 'a\<close>, with \<open>Inl\<close> for the raised exception.
\<close>

datatype exc = Exc (derives_Exception: bool) (cls: string) (message: string)

definition FileNotFoundError :: "string \<Rightarrow> exc" where
  "FileNotFoundError m = Exc True ''FileNotFoundError'' m"

definition NameError :: "string \<Rightarrow> exc" where
  "NameError n = Exc True ''NameError'' (''name '' @ [CHR 0x27] @ n @ [CHR 0x27] @ '' is not defined'')"

text \<open>
  A Python number is an \<^verbatim>\<open>int\<close> or a \<^verbatim>\<open>float\<close>. The functions below only pass
  numbers on and never compute with them, so a float is represented by the decimal value
  that its literal denotes.
\<close>

datatype number = PyInt int | PyFloat rat

section \<open>The third-party packages and the names the module binds\<close>

text \<open>
  The constructors and methods the module calls come from third-party packages (lines 2
  to 7 and 9 of \<^verbatim>\<open>agents/agent_orchestrator.py\<close>) and are parameters of the model;
  each may raise. An object the module only hands on is opaque (a type variable). An
  object the module calls is represented by the one method it calls: a prompt template by
  its \<^verbatim>\<open>format\<close> (keyword arguments as an association list), a language model by
  its \<^verbatim>\<open>__call__\<close> on a prompt string.
\<close>

type_synonym prompt = "(string \<times> string) list \<Rightarrow> exc + string"
type_synonym llm = "string \<Rightarrow> exc + string"

record ('mem, 'emb, 'vs, 'ret, 'chain) packages =
  os_path_exists :: "string \<Rightarrow> bool"
  HuggingFaceEmbeddings :: "string \<Rightarrow> exc + 'emb"
  FAISS_load_local :: "string \<Rightarrow> 'emb \<Rightarrow> bool \<Rightarrow> exc + 'vs"
  as_retriever :: "'vs \<Rightarrow> (string \<times> int) list \<Rightarrow> exc + 'ret"
  ConversationBufferMemory :: "string \<Rightarrow> bool \<Rightarrow> exc + 'mem"
  OpenAI :: "rat \<Rightarrow> exc + llm"
  PromptTemplate :: "string \<Rightarrow> string list \<Rightarrow> exc + prompt"
  RetrievalQA_from_chain_type :: "llm \<Rightarrow> string \<Rightarrow> 'ret \<Rightarrow> bool \<Rightarrow> exc + 'chain"

text \<open>
  The global names of the module when one of its functions runs: what the import
  statements of lines 2 to 9 bind, and the three functions it defines. Reading a name
  that is not a local variable, not one of these and not a builtin raises
  \<^verbatim>\<open>NameError\<close>. \<^verbatim>\<open>RetrievalQA\<close>, which line 25 reads, is such a name: no
  import statement of the module binds it.
\<close>

definition module_globals :: "string list" where
  "module_globals =
     [''HuggingFaceEmbeddings'', ''FAISS'', ''ConversationBufferMemory'', ''OpenAI'',
      ''PromptTemplate'', ''compute_stats'', ''simple_rule_check'', ''os'',
      ''get_retrieval_chain'', ''get_agent'', ''analyze_vm_data'']"

definition load_global :: "string \<Rightarrow> exc + unit" where
  "load_global n = (if n \<in> set module_globals then Inr () else Inl (NameError n))"

section \<open>\<^verbatim>\<open>get_retrieval_chain\<close>\<close>

text \<open>
  Lines 12 to 32. The function returns the calls it has made to the packages, in order and
  with their arguments, next to its outcome: the claims about it are about what it asks of
  the packages and when. The guard of lines 16 and 17 comes first; then the constructors
  run in source order and the first raise propagates. Line 25 evaluates the name
  \<^verbatim>\<open>RetrievalQA\<close> before it evaluates any argument of the call.

  The return annotation of line 12 reads the same name. The model is of the function
  body, as an interpreter runs it that defers annotations (Python 3.14 and later); an
  earlier interpreter evaluates the annotation when the \<^verbatim>\<open>def\<close> statement runs and
  raises the same \<^verbatim>\<open>NameError\<close> while the module is imported.
\<close>

datatype ('emb, 'vs, 'ret) call =
    Call_HuggingFaceEmbeddings string
  | Call_FAISS_load_local string 'emb bool
  | Call_OpenAI rat
  | Call_as_retriever 'vs "(string \<times> int) list"
  | Call_RetrievalQA_from_chain_type string 'ret bool

definition vectorstore_path_default :: string where
  "vectorstore_path_default = ''vectorstore/faiss_index''"

definition model_name :: string where
  "model_name = ''sentence-transformers/all-MiniLM-L6-v2''"

definition get_retrieval_chain ::
  "('mem, 'emb, 'vs, 'ret, 'chain) packages \<Rightarrow> string
     \<Rightarrow> ('emb, 'vs, 'ret) call list \<times> (exc + 'chain)" where
  "get_retrieval_chain L vectorstore_path =
     (if \<not> os_path_exists L vectorstore_path
      then ([], Inl (FileNotFoundError (''Vectorstore not found at '' @ vectorstore_path)))
      else
        let c1 = Call_HuggingFaceEmbeddings model_name in
        case HuggingFaceEmbeddings L model_name of
          Inl e \<Rightarrow> ([c1], Inl e)
        | Inr embeddings \<Rightarrow>
            let c2 = Call_FAISS_load_local vectorstore_path embeddings True in
            (case FAISS_load_local L vectorstore_path embeddings True of
               Inl e \<Rightarrow> ([c1, c2], Inl e)
             | Inr vectorstore \<Rightarrow>
                 let c3 = Call_OpenAI 0 in
                 (case OpenAI L 0 of
                    Inl e \<Rightarrow> ([c1, c2, c3], Inl e)
                  | Inr llm \<Rightarrow>
                      let c4 = Call_as_retriever vectorstore [(''k'', 3)] in
                      (case as_retriever L vectorstore [(''k'', 3)] of
                         Inl e \<Rightarrow> ([c1, c2, c3, c4], Inl e)
                       | Inr retriever \<Rightarrow>
                           (case load_global ''RetrievalQA'' of
                              Inl e \<Rightarrow> ([c1, c2, c3, c4], Inl e)
                            | Inr _ \<Rightarrow>
                                ([c1, c2, c3, c4,
                                  Call_RetrievalQA_from_chain_type ''stuff'' retriever True],
                                 RetrievalQA_from_chain_type L llm ''stuff'' retriever True))))))"

section \<open>\<^verbatim>\<open>get_agent\<close> and its closure \<^verbatim>\<open>agent_response\<close>\<close>

definition template :: string where
  "template = ''\<newline>    You are a Virtual Metrology AI Assistant.\<newline>    You analyze semiconductor process logs and generate insights.\<newline>\<newline>    User Question: {question}\<newline>    ''"

text \<open>
  Lines 51 to 60. The guarded block formats the prompt and calls the model; the handler
  catches what derives from \<^verbatim>\<open>Exception\<close> and returns the f-string, anything else
  propagates.
\<close>

definition agent_response :: "prompt \<Rightarrow> llm \<Rightarrow> string \<Rightarrow> exc + string" where
  "agent_response prompt llm question =
     (let chain_input = [(''question'', question)] in
      case (case prompt chain_input of Inl e \<Rightarrow> Inl e | Inr p \<Rightarrow> llm p) of
        Inr answer \<Rightarrow> Inr answer
      | Inl e \<Rightarrow>
          if derives_Exception e
          then Inr (''Error while generating response: '' @ message e)
          else Inl e)"

text \<open>Lines 35 to 62: the constructors run in source order, the first raise propagates.\<close>

definition get_agent ::
  "('mem, 'emb, 'vs, 'ret, 'chain) packages \<Rightarrow> exc + (string \<Rightarrow> exc + string)" where
  "get_agent L =
     (case ConversationBufferMemory L ''chat_history'' True of
        Inl e \<Rightarrow> Inl e
      | Inr memory \<Rightarrow>
          (case PromptTemplate L template [''question''] of
             Inl e \<Rightarrow> Inl e
           | Inr prompt \<Rightarrow>
               (case OpenAI L (3 / 10) of
                  Inl e \<Rightarrow> Inl e
                | Inr llm \<Rightarrow> Inr (agent_response prompt llm))))"

section \<open>\<^verbatim>\<open>analyze_vm_data\<close>\<close>

text \<open>
  \<^verbatim>\<open>compute_stats\<close> and \<^verbatim>\<open>simple_rule_check\<close> are imported from
  \<^verbatim>\<open>agents.tools\<close> (line 8), which is not among the sources; they are parameters,
  and either may raise. A list comprehension evaluates its element expression from left
  to right and stops at the first raise.
\<close>

fun comprehension :: "('a \<Rightarrow> exc + 'b) \<Rightarrow> 'a list \<Rightarrow> exc + 'b list" where
  "comprehension f [] = Inr []"
| "comprehension f (val # vals) =
     (case f val of
        Inl e \<Rightarrow> Inl e
      | Inr b \<Rightarrow> (case comprehension f vals of Inl e \<Rightarrow> Inl e | Inr bs \<Rightarrow> Inr (b # bs)))"

datatype ('s, 'b) entry = Stats 's | Rules "'b list"

definition threshold :: number where
  "threshold = PyFloat (5 / 1000)"

definition analyze_vm_data ::
  "(number list \<Rightarrow> exc + 's) \<Rightarrow> (number \<Rightarrow> number \<Rightarrow> exc + 'b) \<Rightarrow> number list
     \<Rightarrow> exc + (string \<rightharpoonup> ('s, 'b) entry)" where
  "analyze_vm_data compute_stats simple_rule_check data_list =
     (case compute_stats data_list of
        Inl e \<Rightarrow> Inl e
      | Inr stats \<Rightarrow>
          (case comprehension (\<lambda>val. simple_rule_check val threshold) data_list of
             Inl e \<Rightarrow> Inl e
           | Inr rules \<Rightarrow> Inr [''stats'' \<mapsto> Stats stats, ''rules'' \<mapsto> Rules rules]))"

section \<open>\<^verbatim>\<open>load_rag_and_agent\<close> of \<^verbatim>\<open>app_streamlit.py\<close>\<close>

text \<open>
  Lines 99 to 120, the only caller of \<^verbatim>\<open>get_retrieval_chain\<close> and of
  \<^verbatim>\<open>get_agent\<close>. Either initialisation is guarded: an \<^verbatim>\<open>Exception\<close> becomes a
  sidebar message and the value \<^verbatim>\<open>None\<close>. The function returns the sidebar
  messages next to the pair. The two success messages start with the character U+2705,
  three bytes in UTF-8.
\<close>

datatype sidebar = Success string | Error string | Warning string

definition check_mark :: string where
  "check_mark = [CHR 0xE2, CHR 0x9C, CHR 0x85]"

definition load_rag_and_agent ::
  "('mem, 'emb, 'vs, 'ret, 'chain) packages
     \<Rightarrow> exc + (sidebar list \<times> 'chain option \<times> (string \<Rightarrow> exc + string) option)" where
  "load_rag_and_agent L =
     (case (case snd (get_retrieval_chain L vectorstore_path_default) of
              Inr c \<Rightarrow> Inr (Some c, [Success (check_mark @ '' Retrieval chain initialized successfully.'')])
            | Inl e \<Rightarrow>
                if derives_Exception e
                then Inr (None, [Error (''Failed to init retrieval chain: '' @ message e)])
                else Inl e) of
        Inl e \<Rightarrow> Inl e
      | Inr (qa_chain, m1) \<Rightarrow>
          (case (case get_agent L of
                   Inr a \<Rightarrow> Inr (Some a, [Success (check_mark @ '' Agent initialized successfully.'')])
                 | Inl e \<Rightarrow>
                     if derives_Exception e
                     then Inr (None, [Warning (''Failed to init agent: '' @ message e)])
                     else Inl e) of
             Inl e \<Rightarrow> Inl e
           | Inr (agent, m2) \<Rightarrow> Inr (m1 @ m2, qa_chain, agent)))"

section \<open>The Ask action of \<^verbatim>\<open>app_streamlit.py\<close>\<close>



section \<open>Ingestion\<close>

text \<open>
  Modelled from the spec: \<^verbatim>\<open>data_ingest.ingest.ingest_folder\<close>, which
  \<^verbatim>\<open>app_streamlit.py\<close> imports (line 22) and calls (line 57), is not among the
  sources. What follows is section 4.1 of the specification, with its data model
  (section 3) and the persisted layout (section 6).

  The specification leaves open which files are eligible, how a document id derives from
  a file name and what the splitting policy is (section 9); it only requires the policy to
  be deterministic. The three are parameters, as is the embedding provider, which may fail.
\<close>

record chunk =
  chunk_text :: string
  chunk_index :: nat
  parent_document_id :: string
  metadata :: "(string \<times> string) list"

record manifest_record =
  chunk_id :: "string \<times> nat"
  source :: string
  filename :: string
  manifest_chunk_index :: nat

text \<open>
  Modelled from the spec: the persisted state that the missing \<^verbatim>\<open>ingest_folder\<close>
  writes (sections 3 and 6). An index generation is the vector index, one embedding per
  chunk, and the manifest, which the specification keeps in the same order. The disk holds
  the current generation, the only one a reader loads, and the generation an ingestion run
  is writing, if any.
\<close>

record 'v generation =
  vector_index :: "(chunk \<times> 'v) list"
  manifest :: "manifest_record list"

record 'v disk =
  current :: "'v generation"
  staging :: "'v generation option"

record report =
  files_processed :: nat
  chunks_created :: nat
  failures :: "(string \<times> string) list"

record policy =
  eligible :: "string \<Rightarrow> bool"
  document_id :: "string \<Rightarrow> string"
  split :: "string \<Rightarrow> string list"

definition NotFoundError :: "string \<Rightarrow> exc" where
  "NotFoundError m = Exc True ''NotFoundError'' m"

definition empty_generation :: "'v generation" where
  "empty_generation = \<lparr>vector_index = [], manifest = []\<rparr>"

definition empty_report :: report where
  "empty_report = \<lparr>files_processed = 0, chunks_created = 0, failures = []\<rparr>"

text \<open>
  Modelled from the spec: the splitting step of the missing \<^verbatim>\<open>ingest_folder\<close>
  (section 4.1). The chunks of one file are numbered in the order the policy gives them
  and carry the file name as their source.
\<close>

definition chunks_of :: "policy \<Rightarrow> string \<times> string \<Rightarrow> chunk list" where
  "chunks_of P f =
     map (\<lambda>(i, t). \<lparr>chunk_text = t, chunk_index = i,
                      parent_document_id = document_id P (fst f),
                      metadata = [(''source'', fst f), (''filename'', fst f)]\<rparr>)
       (enumerate 0 (split P (snd f)))"

definition metadata_get :: "chunk \<Rightarrow> string \<Rightarrow> string" where
  "metadata_get c k = (case map_of (metadata c) k of None \<Rightarrow> [] | Some v \<Rightarrow> v)"

definition manifest_of :: "chunk \<Rightarrow> manifest_record" where
  "manifest_of c =
     \<lparr>chunk_id = (parent_document_id c, chunk_index c),
      source = metadata_get c ''source'',
      filename = metadata_get c ''filename'',
      manifest_chunk_index = chunk_index c\<rparr>"

definition add_chunk :: "'v generation \<Rightarrow> chunk \<Rightarrow> 'v \<Rightarrow> 'v generation" where
  "add_chunk g c v =
     \<lparr>vector_index = vector_index g @ [(c, v)], manifest = manifest g @ [manifest_of c]\<rparr>"

text \<open>
  Modelled from the spec: the embedding step of the missing \<^verbatim>\<open>ingest_folder\<close>
  (section 4.1), which embeds the chunks of one file into the generation being written.
  The result is every state of that generation that has been written, in order, and
  either the generation with all the chunks of the file or the failure of the provider at
  the first chunk it could not embed.
\<close>

fun stage_chunks ::
  "(string \<Rightarrow> exc + 'v) \<Rightarrow> chunk list \<Rightarrow> 'v generation
     \<Rightarrow> 'v generation list \<times> (exc + 'v generation)" where
  "stage_chunks embedder [] g = ([], Inr g)"
| "stage_chunks embedder (c # cs) g =
     (case embedder (chunk_text c) of
        Inl e \<Rightarrow> ([], Inl e)
      | Inr v \<Rightarrow>
          (case stage_chunks embedder cs (add_chunk g c v) of
             (written, r) \<Rightarrow> (add_chunk g c v # written, r)))"

text \<open>
  Modelled from the spec: the loop of the missing \<^verbatim>\<open>ingest_folder\<close> over the files
  of the folder (section 4.1). A file whose chunk fails is aborted: what it wrote to the
  new generation is dropped and the failure is recorded with the file name and the reason;
  the run goes on with the next file.
\<close>

fun ingest_files ::
  "(string \<Rightarrow> exc + 'v) \<Rightarrow> policy \<Rightarrow> (string \<times> string) list \<Rightarrow> 'v generation \<Rightarrow> report
     \<Rightarrow> 'v generation list \<times> 'v generation \<times> report" where
  "ingest_files embedder P [] g rep = ([], g, rep)"
| "ingest_files embedder P (f # fs) g rep =
     (if \<not> eligible P (fst f) then ingest_files embedder P fs g rep
      else
        case stage_chunks embedder (chunks_of P f) g of
          (written, Inl e) \<Rightarrow>
            (case ingest_files embedder P fs g
                    (rep\<lparr>failures := failures rep @ [(fst f, message e)]\<rparr>) of
               (later, r) \<Rightarrow> (written @ [g] @ later, r))
        | (written, Inr g') \<Rightarrow>
            (case ingest_files embedder P fs g'
                    (rep\<lparr>files_processed := Suc (files_processed rep),
                         chunks_created := chunks_created rep + length (chunks_of P f)\<rparr>) of
               (later, r) \<Rightarrow> (written @ later, r)))"

text \<open>
  Modelled from the spec: the missing \<^verbatim>\<open>ingest_folder\<close> itself, the contract
  \<^verbatim>\<open>ingest(folder_path)\<close> of section 4.1, as one run on a disk \<open>d\<close>. A folder that
  does not exist is an error; a folder with no eligible file succeeds with the empty
  report and writes nothing. Otherwise the run writes a new generation beside the current
  one and, when every file went through, commits it by one swap; when a file failed it
  discards it. The first component lists the disk after each write of the run, in order:
  a reader running at the same time as the run loads \<open>current\<close> of \<open>d\<close> or of one of
  these.
\<close>

definition ingest ::
  "(string \<Rightarrow> exc + 'v) \<Rightarrow> policy \<Rightarrow> (string \<rightharpoonup> (string \<times> string) list) \<Rightarrow> string \<Rightarrow> 'v disk
     \<Rightarrow> 'v disk list \<times> (exc + 'v disk \<times> report)" where
  "ingest embedder P fs folder_path d =
     (case fs folder_path of
        None \<Rightarrow> ([], Inl (NotFoundError folder_path))
      | Some files \<Rightarrow>
          if filter (\<lambda>f. eligible P (fst f)) files = [] then ([], Inr (d, empty_report))
          else
            case ingest_files embedder P files empty_generation empty_report of
              (written, g, rep) \<Rightarrow>
                let d' = (if failures rep = []
                          then \<lparr>current = g, staging = None\<rparr>
                          else d\<lparr>staging := None\<rparr>)
                in (map (\<lambda>w. d\<lparr>staging := Some w\<rparr>) (empty_generation # written) @ [d'],
                    Inr (d', rep)))"

text \<open>
  Modelled from the spec: what section 3 requires of a generation of the missing
  \<^verbatim>\<open>ingest_folder\<close> that a reader loads. Every vector in it is what the provider
  returned for its chunk, and the generation is complete for a folder when its chunks are
  those of the eligible files, in order, with the manifest aligned.
\<close>

definition embedded :: "(string \<Rightarrow> exc + 'v) \<Rightarrow> 'v generation \<Rightarrow> bool" where
  "embedded embedder g =
     list_all (\<lambda>x. embedder (chunk_text (fst x)) = Inr (snd x)) (vector_index g)"

definition complete_generation ::
  "(string \<Rightarrow> exc + 'v) \<Rightarrow> policy \<Rightarrow> (string \<times> string) list \<Rightarrow> 'v generation \<Rightarrow> bool" where
  "complete_generation embedder P files g \<longleftrightarrow>
     map fst (vector_index g)
       = concat (map (chunks_of P) (filter (\<lambda>f. eligible P (fst f)) files))
     \<and> manifest g = map manifest_of (map fst (vector_index g))
     \<and> embedded embedder g"

section \<open>Concrete packages, folders and providers\<close>

text \<open>
  Packages that always succeed, for evaluating the module: an embedding object is its
  model name and output dimension, a loaded vector store is the model and dimension the
  index at the path was built with, a retriever is the store and its search arguments.
  The index at \<^verbatim>\<open>vectorstore/faiss_index\<close> was built with a model of dimension 768.
\<close>

definition example_packages ::
  "(unit, string \<times> nat, string \<times> nat, (string \<times> nat) \<times> (string \<times> int) list, unit) packages" where
  "example_packages =
     \<lparr>os_path_exists = (\<lambda>p. p = ''vectorstore/faiss_index''),
      HuggingFaceEmbeddings = (\<lambda>m. Inr (m, 384)),
      FAISS_load_local = (\<lambda>p emb allow. Inr (''sentence-transformers/all-mpnet-base-v2'', 768)),
      as_retriever = (\<lambda>vs kw. Inr (vs, kw)),
      ConversationBufferMemory = (\<lambda>k r. Inr ()),
      OpenAI = (\<lambda>t. Inr (\<lambda>p. Inr ''The drift follows the chamber clean.'')),
      PromptTemplate = (\<lambda>t vars. Inr (\<lambda>kw. Inr t)),
      RetrievalQA_from_chain_type = (\<lambda>l ct r rsd. Inr ())\<rparr>"

text \<open>
  Three variations: a folder at the path that holds no \<^verbatim>\<open>index.pkl\<close>, so that
  loading the store raises the not-found error of the file it opens; no folder at any
  path; and a vector store that refuses to make a retriever for the search arguments
  \<open>k = 3\<close>.
\<close>

definition incomplete_index_packages ::
  "(unit, string \<times> nat, string \<times> nat, (string \<times> nat) \<times> (string \<times> int) list, unit) packages" where
  "incomplete_index_packages =
     example_packages
       \<lparr>FAISS_load_local := (\<lambda>p emb allow.
          Inl (Exc True ''FileNotFoundError''
                 (''[Errno 2] No such file or directory: '' @ p @ ''/index.pkl'')))\<rparr>"



text \<open>
  The folder of the end-to-end scenario of the specification, a policy that cuts a text
  after 20 characters, and two providers: one embeds a text as its length, the other fails
  on a text that starts with a blank.
\<close>

definition example_fs :: "string \<rightharpoonup> (string \<times> string) list" where
  "example_fs =
     [''data/sample_logs'' \<mapsto>
        [(''lot1.log'', ''CD drift observed on lot L1234 at step 12''), (''notes.bin'', ''x'')]]"

definition example_policy :: policy where
  "example_policy =
     \<lparr>eligible = (\<lambda>n. drop (length n - 4) n = ''.log''),
      document_id = (\<lambda>n. n),
      split = (\<lambda>t. [take 20 t, drop 20 t])\<rparr>"

definition length_embed :: "string \<Rightarrow> exc + nat" where
  "length_embed t = Inr (length t)"

definition failing_embed :: "string \<Rightarrow> exc + nat" where
  "failing_embed t =
     (if take 1 t = '' '' then Inl (Exc True ''ProviderError'' ''embedding failed'')
      else Inr (length t))"

text \<open>
  A second provider, which answers as \<open>length_embed\<close> does on every text but one that
  the folder does not contain, and the file system at the time of a second run, where
  another folder has appeared and the ingested one is as it was.
\<close>

definition other_embed :: "string \<Rightarrow> exc + nat" where
  "other_embed t = (if t = ''old'' then Inr 0 else Inr (length t))"

definition example_fs_later :: "string \<rightharpoonup> (string \<times> string) list" where
  "example_fs_later = example_fs(''data/other'' \<mapsto> [(''lot2.log'', ''new'')])"

definition old_disk :: "nat disk" where
  "old_disk =
     \<lparr>current =
        \<lparr>vector_index =
           [(\<lparr>chunk_text = ''old'', chunk_index = 0, parent_document_id = ''lot0.log'',
              metadata = [(''source'', ''lot0.log''), (''filename'', ''lot0.log'')]\<rparr>, 3)],
         manifest =
           [\<lparr>chunk_id = (''lot0.log'', 0), source = ''lot0.log'', filename = ''lot0.log'',
             manifest_chunk_index = 0\<rparr>]\<rparr>,
      staging = None\<rparr>"

section \<open>Properties of \<^verbatim>\<open>agent_response\<close>\<close>

lemma agent_response_returns_answer:
  "prompt [(''question'', question)] = Inr p \<Longrightarrow> llm p = Inr answer
     \<Longrightarrow> agent_response prompt llm question = Inr answer"
  by (simp add: agent_response_def)

lemma agent_response_total_on_Exception:
  assumes "\<And>e. prompt [(''question'', question)] = Inl e \<Longrightarrow> derives_Exception e"
    and "\<And>p e. llm p = Inl e \<Longrightarrow> derives_Exception e"
  shows "\<exists>s. agent_response prompt llm question = Inr s"
  using assms by (auto simp: agent_response_def Let_def split: sum.splits)

lemma agent_response_propagates_other:
  "prompt [(''question'', question)] = Inr p \<Longrightarrow> llm p = Inl e \<Longrightarrow> \<not> derives_Exception e
     \<Longrightarrow> agent_response prompt llm question = Inl e"
  by (simp add: agent_response_def)

text \<open>
  Claim C1. Whatever the question, when the call of the language model raises an
  exception (an instance of \<^verbatim>\<open>Exception\<close>), \<^verbatim>\<open>agent_response\<close> does not raise:
  it returns a string, and that string is the marker
  \<^verbatim>\<open>Error while generating response: \<close> followed by the text of the exception.
\<close>

theorem agent_response_contains_provider_failure:
  assumes "prompt [(''question'', question)] = Inr p"
    and "llm p = Inl e"
    and "derives_Exception e"
  shows "agent_response prompt llm question
           = Inr (''Error while generating response: '' @ message e)"
  using assms by (simp add: agent_response_def)

theorem agent_response_contains_provider_failure_witness:
  "agent_response (\<lambda>kw. Inr (''Q: '' @ snd (hd kw)))
       (\<lambda>p. Inl (Exc True ''RateLimitError'' ''quota exceeded''))
       ''Why did lot L1234 show CD drift?''
     = Inr ''Error while generating response: quota exceeded''"
  using agent_response_contains_provider_failure
    [of "\<lambda>kw. Inr (''Q: '' @ snd (hd kw))" "''Why did lot L1234 show CD drift?''"
        "''Q: Why did lot L1234 show CD drift?''"
        "\<lambda>p. Inl (Exc True ''RateLimitError'' ''quota exceeded'')"
        "Exc True ''RateLimitError'' ''quota exceeded''"]
  by simp

section \<open>Properties of \<^verbatim>\<open>analyze_vm_data\<close>\<close>

lemma comprehension_Inr_iff:
  "comprehension f xs = Inr bs \<longleftrightarrow>
     length bs = length xs \<and> (\<forall>i < length xs. f (xs ! i) = Inr (bs ! i))"
proof (induction xs arbitrary: bs)
  case Nil
  then show ?case by auto
next
  case (Cons x xs)
  show ?case
  proof (cases "f x")
    case (Inl e)
    then show ?thesis
      by (cases bs) auto
  next
    case (Inr b)
    show ?thesis
    proof (cases "comprehension f xs")
      case (Inl e)
      with Inr Cons.IH [of "tl bs"] show ?thesis
        by (cases bs) (auto simp: nth_Cons split: nat.splits)
    next
      case r: (Inr cs)
      with Inr Cons.IH show ?thesis
        by (cases bs) (auto simp: nth_Cons less_Suc_eq_0_disj split: nat.splits)
    qed
  qed
qed

lemma comprehension_returns:
  assumes "\<forall>x \<in> set xs. \<exists>b. f x = Inr b"
  shows "\<exists>bs. comprehension f xs = Inr bs"
  using assms by (induction xs) auto

text \<open>
  Claim C10. For every list of numbers on which the two helpers return,
  \<^verbatim>\<open>analyze_vm_data\<close> returns the dict with exactly the keys \<^verbatim>\<open>stats\<close> and
  \<^verbatim>\<open>rules\<close>: \<^verbatim>\<open>stats\<close> is the value of \<^verbatim>\<open>compute_stats(data_list)\<close>, and
  \<^verbatim>\<open>rules\<close> is a list as long as the input whose i-th entry is the value of
  \<^verbatim>\<open>simple_rule_check\<close> at the i-th input and the threshold 0.005.
\<close>

theorem analyze_vm_data_stats_and_rules:
  assumes "compute_stats data_list = Inr s"
    and "\<forall>v \<in> set data_list. \<exists>b. simple_rule_check v (PyFloat (5 / 1000)) = Inr b"
  shows "\<exists>rules.
           analyze_vm_data compute_stats simple_rule_check data_list
             = Inr [''stats'' \<mapsto> Stats s, ''rules'' \<mapsto> Rules rules]
         \<and> length rules = length data_list
         \<and> (\<forall>i < length data_list.
               simple_rule_check (data_list ! i) (PyFloat (5 / 1000)) = Inr (rules ! i))"
proof -
  from assms(2) obtain rules
    where r: "comprehension (\<lambda>val. simple_rule_check val threshold) data_list = Inr rules"
    using comprehension_returns [of data_list "\<lambda>val. simple_rule_check val threshold"]
    by (auto simp: threshold_def)
  then have "length rules = length data_list"
    and "\<forall>i < length data_list.
           simple_rule_check (data_list ! i) (PyFloat (5 / 1000)) = Inr (rules ! i)"
    by (simp_all add: comprehension_Inr_iff threshold_def)
  moreover have "analyze_vm_data compute_stats simple_rule_check data_list
                   = Inr [''stats'' \<mapsto> Stats s, ''rules'' \<mapsto> Rules rules]"
    using assms(1) r by (simp add: analyze_vm_data_def)
  ultimately show ?thesis by blast
qed

theorem analyze_vm_data_stats_and_rules_witness:
  "analyze_vm_data (\<lambda>xs. Inr (length xs))
       (\<lambda>v t. Inr (case (v, t) of (PyFloat a, PyFloat b) \<Rightarrow> b < a | _ \<Rightarrow> False))
       [PyFloat (1 / 1000), PyFloat (1 / 100)]
     = Inr [''stats'' \<mapsto> Stats 2, ''rules'' \<mapsto> Rules [False, True]]"
proof -
  let ?cs = "\<lambda>xs :: number list. (Inr (length xs) :: exc + nat)"
  let ?chk = "\<lambda>v t. (Inr (case (v, t) of (PyFloat a, PyFloat b) \<Rightarrow> b < a | _ \<Rightarrow> False)
                  :: exc + bool)"
  let ?data = "[PyFloat (1 / 1000), PyFloat (1 / 100)]"
  have h1: "?cs ?data = Inr 2" by simp
  have h2: "\<forall>v \<in> set ?data. \<exists>b. ?chk v (PyFloat (5 / 1000)) = Inr b" by simp
  from analyze_vm_data_stats_and_rules [of ?cs ?data 2 ?chk, OF h1 h2]
  obtain rules
    where r: "analyze_vm_data ?cs ?chk ?data
                = Inr [''stats'' \<mapsto> Stats 2, ''rules'' \<mapsto> Rules rules]"
      and l: "length rules = 2"
      and n: "\<forall>i < 2. ?chk (?data ! i) (PyFloat (5 / 1000)) = Inr (rules ! i)"
    by auto
  from n [rule_format, of 0] n [rule_format, of 1]
  have "rules ! 0 = False" "rules ! 1 = True"
    by simp_all
  with l have "rules = [False, True]"
    by (cases rules; cases "tl rules"; auto)
  with r show ?thesis by simp
qed

section \<open>Properties of \<^verbatim>\<open>get_retrieval_chain\<close>\<close>

lemma load_global_RetrievalQA: "load_global ''RetrievalQA'' = Inl (NameError ''RetrievalQA'')"
  by (simp add: load_global_def module_globals_def)

lemma get_retrieval_chain_never_returns: "\<exists>e. snd (get_retrieval_chain L p) = Inl e"
  by (simp add: get_retrieval_chain_def load_global_RetrievalQA Let_def split: sum.splits)

lemma load_rag_and_agent_no_chain:
  "load_rag_and_agent L = Inr (msgs, qa_chain, agent) \<Longrightarrow> qa_chain = None"
proof -
  obtain e where "snd (get_retrieval_chain L vectorstore_path_default) = Inl e"
    using get_retrieval_chain_never_returns by blast
  then show "load_rag_and_agent L = Inr (msgs, qa_chain, agent) \<Longrightarrow> qa_chain = None"
    by (auto simp: load_rag_and_agent_def split: sum.splits if_splits)
qed

text \<open>
  Claim C2, as the specification states it, fails in its "only if" half: a folder exists at
  \<^verbatim>\<open>vectorstore/faiss_index\<close> but holds no \<^verbatim>\<open>index.pkl\<close>, the guard of line 16
  passes, and \<^verbatim>\<open>get_retrieval_chain\<close> still fails with a not-found error, the one
  that loading the store raises.
\<close>

theorem get_retrieval_chain_not_found_counterexample:
  "os_path_exists incomplete_index_packages ''vectorstore/faiss_index''
   \<and> snd (get_retrieval_chain incomplete_index_packages ''vectorstore/faiss_index'')
       = Inl (Exc True ''FileNotFoundError''
                ''[Errno 2] No such file or directory: vectorstore/faiss_index/index.pkl'')"
  by (simp add: get_retrieval_chain_def incomplete_index_packages_def example_packages_def
      model_name_def)

text \<open>
  Claim C2, amended. For every path \<open>p\<close>: when nothing exists at \<open>p\<close> (the test of
  line 16), \<^verbatim>\<open>get_retrieval_chain(p)\<close> raises
  \<^verbatim>\<open>FileNotFoundError('Vectorstore not found at p')\<close> to its caller before it has
  called any package, so nothing is loaded and no chain is built. When something exists
  at \<open>p\<close> the guard does not raise: a \<^verbatim>\<open>FileNotFoundError\<close> that reaches the caller
  then is one that a package call raised, the constructor of the embeddings, the loading
  of the store, the constructor of the language model or the making of the retriever.
\<close>

theorem get_retrieval_chain_not_found_guard:
  "(\<not> os_path_exists L p \<longrightarrow>
      get_retrieval_chain L p
        = ([], Inl (FileNotFoundError (''Vectorstore not found at '' @ p))))
   \<and> (os_path_exists L p \<and> snd (get_retrieval_chain L p) = Inl e
        \<and> cls e = ''FileNotFoundError'' \<longrightarrow>
        HuggingFaceEmbeddings L model_name = Inl e
        \<or> (\<exists>emb. HuggingFaceEmbeddings L model_name = Inr emb
              \<and> (FAISS_load_local L p emb True = Inl e
                  \<or> (\<exists>vs. FAISS_load_local L p emb True = Inr vs
                        \<and> (OpenAI L 0 = Inl e
                            \<or> (\<exists>llm. OpenAI L 0 = Inr llm
                                  \<and> as_retriever L vs [(''k'', 3)] = Inl e))))))"
  by (auto simp: get_retrieval_chain_def Let_def load_global_RetrievalQA NameError_def
      split: sum.splits)

theorem get_retrieval_chain_not_found_guard_witness:
  "get_retrieval_chain example_packages ''vectorstore/missing''
     = ([], Inl (Exc True ''FileNotFoundError''
                   ''Vectorstore not found at vectorstore/missing''))
   \<and> FAISS_load_local incomplete_index_packages ''vectorstore/faiss_index''
         (''sentence-transformers/all-MiniLM-L6-v2'', 384) True
       = Inl (Exc True ''FileNotFoundError''
                ''[Errno 2] No such file or directory: vectorstore/faiss_index/index.pkl'')
   \<and> snd (get_retrieval_chain incomplete_index_packages ''vectorstore/faiss_index'')
       = Inl (Exc True ''FileNotFoundError''
                ''[Errno 2] No such file or directory: vectorstore/faiss_index/index.pkl'')"
proof -
  let ?e = "Exc True ''FileNotFoundError''
              ''[Errno 2] No such file or directory: vectorstore/faiss_index/index.pkl''"
  have h0: "\<not> os_path_exists example_packages ''vectorstore/missing''"
    by (simp add: example_packages_def)
  have h1: "os_path_exists incomplete_index_packages ''vectorstore/faiss_index''
      \<and> snd (get_retrieval_chain incomplete_index_packages ''vectorstore/faiss_index'') = Inl ?e
      \<and> cls ?e = ''FileNotFoundError''"
    by (simp add: get_retrieval_chain_def incomplete_index_packages_def example_packages_def
        model_name_def)
  from get_retrieval_chain_not_found_guard [of example_packages "''vectorstore/missing''"] h0
  have a: "get_retrieval_chain example_packages ''vectorstore/missing''
     = ([], Inl (Exc True ''FileNotFoundError''
                   ''Vectorstore not found at vectorstore/missing''))"
    by (simp add: FileNotFoundError_def)
  from get_retrieval_chain_not_found_guard
    [of incomplete_index_packages "''vectorstore/faiss_index''" ?e] h1
  have "FAISS_load_local incomplete_index_packages ''vectorstore/faiss_index''
         (''sentence-transformers/all-MiniLM-L6-v2'', 384) True = Inl ?e"
    by (simp add: incomplete_index_packages_def example_packages_def model_name_def)
  with a h1 show ?thesis by simp
qed







text \<open>
  Claim C3. The chain that is to return the retrieved chunks with the answer
  (\<^verbatim>\<open>return_source_documents=True\<close>, lines 25 to 30) is never built. With the index
  in place at the default path and every package constructing its object,
  \<^verbatim>\<open>get_retrieval_chain\<close> raises \<^verbatim>\<open>NameError\<close> at line 25, after the retriever
  has been made, and \<^verbatim>\<open>load_rag_and_agent\<close> reports the failure in the sidebar and
  gives the application \<^verbatim>\<open>None\<close> for its retrieval chain. No query gets an answer
  with source chunks.
\<close>

theorem get_retrieval_chain_RetrievalQA_unbound:
  "get_retrieval_chain example_packages vectorstore_path_default
     = ([Call_HuggingFaceEmbeddings ''sentence-transformers/all-MiniLM-L6-v2'',
         Call_FAISS_load_local ''vectorstore/faiss_index''
           (''sentence-transformers/all-MiniLM-L6-v2'', 384) True,
         Call_OpenAI 0,
         Call_as_retriever (''sentence-transformers/all-mpnet-base-v2'', 768) [(''k'', 3)]],
        Inl (Exc True ''NameError''
               (''name '' @ [CHR 0x27] @ ''RetrievalQA'' @ [CHR 0x27] @ '' is not defined'')))
   \<and> (\<exists>agent. load_rag_and_agent example_packages
        = Inr ([Error (''Failed to init retrieval chain: name '' @ [CHR 0x27]
                         @ ''RetrievalQA'' @ [CHR 0x27] @ '' is not defined''),
                Success (check_mark @ '' Agent initialized successfully.'')],
               None, Some agent))"
  by (simp add: get_retrieval_chain_def load_rag_and_agent_def get_agent_def
      example_packages_def vectorstore_path_default_def model_name_def
      load_global_RetrievalQA NameError_def)

section \<open>Properties of ingestion\<close>

lemma embedded_add_chunk:
  "embedded E (add_chunk g c v) \<longleftrightarrow> embedded E g \<and> E (chunk_text c) = Inr v"
  by (auto simp: embedded_def add_chunk_def)

lemma stage_chunks_Inr:
  "stage_chunks E cs g = (w, Inr g') \<Longrightarrow>
     map fst (vector_index g') = map fst (vector_index g) @ cs
     \<and> manifest g' = manifest g @ map manifest_of cs
     \<and> (embedded E g' \<longleftrightarrow> embedded E g)"
proof (induction cs arbitrary: g w)
  case Nil
  then show ?case by simp
next
  case (Cons c cs)
  from Cons.prems obtain v w' where v: "E (chunk_text c) = Inr v"
    and r: "stage_chunks E cs (add_chunk g c v) = (w', Inr g')"
    by (auto split: sum.splits prod.splits)
  from Cons.IH [OF r] v show ?case
    by (simp add: embedded_add_chunk) (simp add: add_chunk_def)
qed

lemma stage_chunks_fails:
  "c \<in> set cs \<Longrightarrow> E (chunk_text c) = Inl e \<Longrightarrow> \<exists>w e'. stage_chunks E cs g = (w, Inl e')"
proof (induction cs arbitrary: g)
  case Nil
  then show ?case by simp
next
  case (Cons a cs)
  show ?case
  proof (cases "E (chunk_text a)")
    case (Inl e')
    then show ?thesis by simp
  next
    case (Inr v)
    with Cons.prems have "c \<in> set cs" by auto
    from Cons.IH [OF this Cons.prems(2), of "add_chunk g a v"] Inr show ?thesis
      by (auto split: prod.splits)
  qed
qed

lemma ingest_files_failures_grow:
  "ingest_files E P files g rep = (w, g', rep') \<Longrightarrow>
     \<exists>more. failures rep' = failures rep @ more"
proof (induction files arbitrary: g rep w)
  case Nil
  then show ?case by simp
next
  case (Cons f files)
  then show ?case
    by (fastforce split: if_splits sum.splits prod.splits)
qed

lemma ingest_files_failure:
  assumes "f \<in> set files" "eligible P (fst f)" "c \<in> set (chunks_of P f)"
    "E (chunk_text c) = Inl e"
    and "ingest_files E P files g rep = (w, g', rep')"
  shows "failures rep' \<noteq> []"
  using assms
proof (induction files arbitrary: g rep w)
  case Nil
  then show ?case by simp
next
  case (Cons a files)
  show ?case
  proof (cases "a = f")
    case True
    from stage_chunks_fails [of c "chunks_of P f" E e g] Cons.prems(3,4)
    obtain w1 e1 where s: "stage_chunks E (chunks_of P f) g = (w1, Inl e1)" by blast
    obtain w2 g2 r2 where r: "ingest_files E P files g
        (rep\<lparr>failures := failures rep @ [(fst f, message e1)]\<rparr>) = (w2, g2, r2)"
      by (cases "ingest_files E P files g
                   (rep\<lparr>failures := failures rep @ [(fst f, message e1)]\<rparr>)")
    from ingest_files_failures_grow [OF r] have "failures r2 \<noteq> []" by auto
    with Cons.prems True s r show ?thesis by auto
  next
    case False
    with Cons.prems have "f \<in> set files" by simp
    with Cons.IH Cons.prems show ?thesis
      by (auto split: if_splits sum.splits prod.splits)
  qed
qed

lemma ingest_files_success:
  "ingest_files E P files g rep = (w, g', rep') \<Longrightarrow> failures rep' = failures rep \<Longrightarrow>
     map fst (vector_index g')
       = map fst (vector_index g)
           @ concat (map (chunks_of P) (filter (\<lambda>f. eligible P (fst f)) files))
     \<and> manifest g'
       = manifest g
           @ map manifest_of (concat (map (chunks_of P) (filter (\<lambda>f. eligible P (fst f)) files)))
     \<and> (embedded E g' \<longleftrightarrow> embedded E g)"
proof (induction files arbitrary: g rep w)
  case Nil
  then show ?case by simp
next
  case (Cons f files)
  show ?case
  proof (cases "eligible P (fst f)")
    case False
    with Cons show ?thesis by simp
  next
    case True
    obtain w1 r1 where s: "stage_chunks E (chunks_of P f) g = (w1, r1)"
      by (cases "stage_chunks E (chunks_of P f) g")
    show ?thesis
    proof (cases r1)
      case (Inl e)
      obtain w2 g2 r2 where r: "ingest_files E P files g
        (rep\<lparr>failures := failures rep @ [(fst f, message e)]\<rparr>) = (w2, g2, r2)"
        by (cases "ingest_files E P files g
                     (rep\<lparr>failures := failures rep @ [(fst f, message e)]\<rparr>)")
      from ingest_files_failures_grow [OF r] have "failures r2 \<noteq> failures rep" by auto
      with Cons.prems True s Inl r show ?thesis by auto
    next
      case (Inr g1)
      let ?rep1 = "rep\<lparr>files_processed := Suc (files_processed rep),
                         chunks_created := chunks_created rep + length (chunks_of P f)\<rparr>"
      let ?rest = "concat (map (chunks_of P) (filter (\<lambda>f. eligible P (fst f)) files))"
      obtain w2 where r: "ingest_files E P files g1 ?rep1 = (w2, g', rep')"
        using Cons.prems True s Inr by (auto split: prod.splits)
      from Cons.IH [OF r] Cons.prems(2)
      have ih: "map fst (vector_index g') = map fst (vector_index g1) @ ?rest"
        "manifest g' = manifest g1 @ map manifest_of ?rest"
        "embedded E g' \<longleftrightarrow> embedded E g1"
        by simp_all
      from stage_chunks_Inr [of E "chunks_of P f" g w1 g1] s Inr
      have st: "map fst (vector_index g1) = map fst (vector_index g) @ chunks_of P f"
        "manifest g1 = manifest g @ map manifest_of (chunks_of P f)"
        "embedded E g1 \<longleftrightarrow> embedded E g"
        by simp_all
      from ih st True show ?thesis by simp
    qed
  qed
qed

text \<open>
  Claim C7. An ingestion run of an existing folder ends with a disk and a report, and
  every disk it writes on the way has the current generation it started with, except the
  last one when no file failed, whose current generation is the complete new one: a
  reader, who loads the current generation, never loads a partly written index. When the
  provider fails on any chunk of any eligible file, the run ends with the vector index and
  the manifest it started with, and the failure is in the report.
\<close>

theorem ingest_commits_only_complete_generation:
  assumes "fs folder_path = Some files"
  shows "\<exists>d' rep. snd (ingest E P fs folder_path d) = Inr (d', rep)
    \<and> (\<forall>s \<in> set (fst (ingest E P fs folder_path d)).
          current s = current d
          \<or> (s = d' \<and> failures rep = [] \<and> complete_generation E P files (current s)))
    \<and> ((\<exists>f \<in> set files. eligible P (fst f)
           \<and> (\<exists>c \<in> set (chunks_of P f). \<exists>e. E (chunk_text c) = Inl e))
        \<longrightarrow> current d' = current d \<and> failures rep \<noteq> [])"
proof (cases "filter (\<lambda>f. eligible P (fst f)) files = []")
  case True
  then have "\<not> (\<exists>f \<in> set files. eligible P (fst f))"
    by (simp add: filter_empty_conv)
  with True assms show ?thesis
    by (auto simp: ingest_def)
next
  case False
  obtain w g rep where r: "ingest_files E P files empty_generation empty_report = (w, g, rep)"
    by (cases "ingest_files E P files (empty_generation :: 'a generation) empty_report")
  let ?d' = "if failures rep = [] then \<lparr>current = g, staging = None\<rparr> else d\<lparr>staging := None\<rparr>"
  have res: "ingest E P fs folder_path d
      = (map (\<lambda>w. d\<lparr>staging := Some w\<rparr>) (empty_generation # w) @ [?d'], Inr (?d', rep))"
    using assms False r by (simp add: ingest_def Let_def)
  have compl: "complete_generation E P files g" if "failures rep = []"
  proof -
    from that have "failures rep = failures empty_report" by (simp add: empty_report_def)
    from ingest_files_success [OF r this] show ?thesis
      by (simp add: complete_generation_def empty_generation_def embedded_def)
  qed
  have fail: "failures rep \<noteq> []"
    if "f \<in> set files" "eligible P (fst f)" "c \<in> set (chunks_of P f)"
      "E (chunk_text c) = Inl e"
    for f c e
    using ingest_files_failure [OF that r] .
  have "\<forall>s \<in> set (fst (ingest E P fs folder_path d)).
          current s = current d
          \<or> (s = ?d' \<and> failures rep = [] \<and> complete_generation E P files (current s))"
    using compl by (auto simp: res)
  moreover have "(\<exists>f \<in> set files. eligible P (fst f)
           \<and> (\<exists>c \<in> set (chunks_of P f). \<exists>e. E (chunk_text c) = Inl e))
        \<longrightarrow> current ?d' = current d \<and> failures rep \<noteq> []"
    using fail by auto
  ultimately show ?thesis
    using res by (intro exI [of _ ?d'] exI [of _ rep]) simp
qed

theorem ingest_commits_only_complete_generation_witness:
  "snd (ingest failing_embed example_policy example_fs ''data/sample_logs'' old_disk)
     = Inr (old_disk,
            \<lparr>files_processed = 0, chunks_created = 0,
             failures = [(''lot1.log'', ''embedding failed'')]\<rparr>)
   \<and> list_all (\<lambda>s. current s = current old_disk)
        (fst (ingest failing_embed example_policy example_fs ''data/sample_logs'' old_disk))"
proof -
  let ?files = "[(''lot1.log'', ''CD drift observed on lot L1234 at step 12''),
                 (''notes.bin'', ''x'')]"
  let ?run = "ingest failing_embed example_policy example_fs ''data/sample_logs'' old_disk"
  have h1: "example_fs ''data/sample_logs'' = Some ?files"
    by (simp add: example_fs_def)
  have h2: "\<exists>f \<in> set ?files. eligible example_policy (fst f)
      \<and> (\<exists>c \<in> set (chunks_of example_policy f). \<exists>e. failing_embed (chunk_text c) = Inl e)"
    by (simp add: example_policy_def chunks_of_def failing_embed_def)
  from ingest_commits_only_complete_generation
    [of example_fs "''data/sample_logs''" ?files failing_embed example_policy old_disk] h1 h2
  obtain d' rep
    where r: "snd ?run = Inr (d', rep)"
      and a: "\<forall>s \<in> set (fst ?run).
                current s = current old_disk
                \<or> (s = d' \<and> failures rep = []
                    \<and> complete_generation failing_embed example_policy ?files (current s))"
      and c: "current d' = current old_disk" "failures rep \<noteq> []"
    by blast
  from a c have "list_all (\<lambda>s. current s = current old_disk) (fst ?run)"
    by (auto simp: list_all_iff)
  moreover have "snd ?run
     = Inr (old_disk,
            \<lparr>files_processed = 0, chunks_created = 0,
             failures = [(''lot1.log'', ''embedding failed'')]\<rparr>)"
    by code_simp
  ultimately show ?thesis by simp
qed

lemma stage_chunks_cong:
  "\<forall>c \<in> set cs. E2 (chunk_text c) = E1 (chunk_text c) \<Longrightarrow>
     stage_chunks E2 cs g = stage_chunks E1 cs g"
  by (induction cs arbitrary: g) (auto split: sum.splits prod.splits)

lemma ingest_files_cong:
  "\<forall>f \<in> set files. eligible P (fst f) \<longrightarrow>
       (\<forall>c \<in> set (chunks_of P f). E2 (chunk_text c) = E1 (chunk_text c)) \<Longrightarrow>
     ingest_files E2 P files g rep = ingest_files E1 P files g rep"
proof (induction files arbitrary: g rep)
  case Nil
  then show ?case by simp
next
  case (Cons f files)
  then have rest: "\<And>g rep. ingest_files E2 P files g rep = ingest_files E1 P files g rep"
    by simp
  show ?case
  proof (cases "eligible P (fst f)")
    case False
    with rest show ?thesis by simp
  next
    case True
    with Cons.prems have "stage_chunks E2 (chunks_of P f) g = stage_chunks E1 (chunks_of P f) g"
      by (intro stage_chunks_cong) simp
    with rest True show ?thesis by simp
  qed
qed

lemma stage_chunks_succeeds:
  "\<forall>c \<in> set cs. \<exists>v. E (chunk_text c) = Inr v \<Longrightarrow> \<exists>w g'. stage_chunks E cs g = (w, Inr g')"
proof (induction cs arbitrary: g)
  case Nil
  then show ?case by simp
next
  case (Cons c cs)
  then obtain v where v: "E (chunk_text c) = Inr v" by auto
  from Cons obtain w g' where "stage_chunks E cs (add_chunk g c v) = (w, Inr g')"
    by fastforce
  with v show ?case by simp
qed

lemma ingest_files_no_failure:
  "\<forall>f \<in> set files. eligible P (fst f) \<longrightarrow>
       (\<forall>c \<in> set (chunks_of P f). \<exists>v. E (chunk_text c) = Inr v) \<Longrightarrow>
     ingest_files E P files g rep = (w, g', rep') \<Longrightarrow> failures rep' = failures rep"
proof (induction files arbitrary: g rep w)
  case Nil
  then show ?case by simp
next
  case (Cons f files)
  show ?case
  proof (cases "eligible P (fst f)")
    case False
    with Cons show ?thesis by simp
  next
    case True
    with Cons.prems(1) have "\<forall>c \<in> set (chunks_of P f). \<exists>v. E (chunk_text c) = Inr v"
      by simp
    from stage_chunks_succeeds [OF this, of g]
    obtain w1 g1 where s: "stage_chunks E (chunks_of P f) g = (w1, Inr g1)" by blast
    let ?rep1 = "rep\<lparr>files_processed := Suc (files_processed rep),
                       chunks_created := chunks_created rep + length (chunks_of P f)\<rparr>"
    obtain w2 where r: "ingest_files E P files g1 ?rep1 = (w2, g', rep')"
      using Cons.prems(2) True s by (auto split: prod.splits)
    from Cons.IH [OF _ r] Cons.prems(1) show ?thesis by simp
  qed
qed

text \<open>
  Claim C8. Ingesting an unchanged folder twice gives the same index. The second run may
  start from any later file system in which the folder has the same files, and may meet a
  provider that answers differently elsewhere, as long as it answers the same on the
  chunks of the folder (a deterministic provider); the policy, a function of the text, is
  the same. Then the second run ends with the current generation and the report of the
  first. When the folder has an eligible file and the provider embeds every chunk, that
  generation is the committed one: its chunks are the chunks that the policy gives for the
  eligible files, in order, so as many in both runs, and its embeddings are what the
  provider of either run returns for them.
\<close>

theorem ingest_twice_same_index:
  assumes folder: "fs1 folder_path = Some files" "fs2 folder_path = Some files"
    and same: "\<forall>f \<in> set files. eligible P (fst f) \<longrightarrow>
                  (\<forall>c \<in> set (chunks_of P f). E2 (chunk_text c) = E1 (chunk_text c))"
  shows "\<exists>d1 rep1 d2 rep2.
           snd (ingest E1 P fs1 folder_path d) = Inr (d1, rep1)
         \<and> snd (ingest E2 P fs2 folder_path d1) = Inr (d2, rep2)
         \<and> rep2 = rep1
         \<and> current d2 = current d1
         \<and> ((\<exists>f \<in> set files. eligible P (fst f))
              \<and> (\<forall>f \<in> set files. eligible P (fst f) \<longrightarrow>
                    (\<forall>c \<in> set (chunks_of P f). \<exists>v. E1 (chunk_text c) = Inr v))
            \<longrightarrow> failures rep1 = []
              \<and> map fst (vector_index (current d1))
                  = concat (map (chunks_of P) (filter (\<lambda>f. eligible P (fst f)) files))
              \<and> length (vector_index (current d2))
                  = length (concat (map (chunks_of P) (filter (\<lambda>f. eligible P (fst f)) files)))
              \<and> map (\<lambda>x. Inr (snd x)) (vector_index (current d1))
                  = map (\<lambda>c. E1 (chunk_text c))
                      (concat (map (chunks_of P) (filter (\<lambda>f. eligible P (fst f)) files)))
              \<and> map (\<lambda>x. Inr (snd x)) (vector_index (current d2))
                  = map (\<lambda>c. E2 (chunk_text c))
                      (concat (map (chunks_of P) (filter (\<lambda>f. eligible P (fst f)) files))))"
proof (cases "filter (\<lambda>f. eligible P (fst f)) files = []")
  case True
  then have "\<not> (\<exists>f \<in> set files. eligible P (fst f))"
    by (simp add: filter_empty_conv)
  with True folder show ?thesis
    by (intro exI [of _ d] exI [of _ empty_report]) (simp add: ingest_def)
next
  case ne: False
  let ?chunks = "concat (map (chunks_of P) (filter (\<lambda>f. eligible P (fst f)) files))"
  obtain w g rep where r: "ingest_files E1 P files empty_generation empty_report = (w, g, rep)"
    by (cases "ingest_files E1 P files (empty_generation :: 'a generation) empty_report")
  from ingest_files_cong [OF same] r
  have r2: "ingest_files E2 P files empty_generation empty_report = (w, g, rep)"
    by simp
  let ?d1 = "if failures rep = [] then \<lparr>current = g, staging = None\<rparr> else d\<lparr>staging := None\<rparr>"
  have run1: "snd (ingest E1 P fs1 folder_path d) = Inr (?d1, rep)"
    using folder(1) ne r by (simp add: ingest_def Let_def)
  have run2: "snd (ingest E2 P fs2 folder_path ?d1) = Inr (?d1, rep)"
    using folder(2) ne r2 by (simp add: ingest_def Let_def)
  have content: "failures rep = []
      \<and> map fst (vector_index (current ?d1)) = ?chunks
      \<and> length (vector_index (current ?d1)) = length ?chunks
      \<and> map (\<lambda>x. Inr (snd x)) (vector_index (current ?d1)) = map (\<lambda>c. E1 (chunk_text c)) ?chunks
      \<and> map (\<lambda>x. Inr (snd x)) (vector_index (current ?d1)) = map (\<lambda>c. E2 (chunk_text c)) ?chunks"
    if first: "\<forall>f \<in> set files. eligible P (fst f) \<longrightarrow>
                 (\<forall>c \<in> set (chunks_of P f). \<exists>v. E1 (chunk_text c) = Inr v)"
  proof -
    from ingest_files_no_failure [OF first r] have nf: "failures rep = []"
      by (simp add: empty_report_def)
    then have "failures rep = failures empty_report"
      by (simp add: empty_report_def)
    from ingest_files_success [OF r this]
    have ch: "map fst (vector_index g) = ?chunks" and em: "embedded E1 g"
      by (simp_all add: empty_generation_def embedded_def)
    from em have "map (\<lambda>x. Inr (snd x)) (vector_index g)
                    = map (\<lambda>c. E1 (chunk_text c)) (map fst (vector_index g))"
      by (simp add: embedded_def list_all_iff)
    with ch have e1: "map (\<lambda>x. Inr (snd x)) (vector_index g)
                        = map (\<lambda>c. E1 (chunk_text c)) ?chunks"
      by simp
    have "map (\<lambda>c. E2 (chunk_text c)) ?chunks = map (\<lambda>c. E1 (chunk_text c)) ?chunks"
      using same by auto
    with e1 have e2: "map (\<lambda>x. Inr (snd x)) (vector_index g)
                        = map (\<lambda>c. E2 (chunk_text c)) ?chunks"
      by simp
    from ch have len: "length (vector_index g) = length ?chunks"
      by (metis length_map)
    from nf ch len e1 e2 show ?thesis by simp
  qed
  have imp: "(\<exists>f \<in> set files. eligible P (fst f))
              \<and> (\<forall>f \<in> set files. eligible P (fst f) \<longrightarrow>
                    (\<forall>c \<in> set (chunks_of P f). \<exists>v. E1 (chunk_text c) = Inr v))
            \<longrightarrow> failures rep = []
              \<and> map fst (vector_index (current ?d1)) = ?chunks
              \<and> length (vector_index (current ?d1)) = length ?chunks
              \<and> map (\<lambda>x. Inr (snd x)) (vector_index (current ?d1))
                  = map (\<lambda>c. E1 (chunk_text c)) ?chunks
              \<and> map (\<lambda>x. Inr (snd x)) (vector_index (current ?d1))
                  = map (\<lambda>c. E2 (chunk_text c)) ?chunks"
    using content by blast
  from run1 run2 imp show ?thesis
    by (intro exI [of _ ?d1] exI [of _ rep]) blast
qed

theorem ingest_twice_same_index_witness:
  "\<exists>d1 rep1.
     snd (ingest length_embed example_policy example_fs ''data/sample_logs'' old_disk)
       = Inr (d1, rep1)
     \<and> snd (ingest other_embed example_policy example_fs_later ''data/sample_logs'' d1)
       = Inr (d1, rep1)
     \<and> map snd (vector_index (current d1)) = [20, 21]
     \<and> rep1 = \<lparr>files_processed = 1, chunks_created = 2, failures = []\<rparr>"
proof -
  let ?files = "[(''lot1.log'', ''CD drift observed on lot L1234 at step 12''),
                 (''notes.bin'', ''x'')]"
  have h1: "example_fs ''data/sample_logs'' = Some ?files"
    "example_fs_later ''data/sample_logs'' = Some ?files"
    by (simp_all add: example_fs_def example_fs_later_def)
  have h2: "\<exists>f \<in> set ?files. eligible example_policy (fst f)"
    by (simp add: example_policy_def)
  have h3: "\<forall>f \<in> set ?files. eligible example_policy (fst f) \<longrightarrow>
      (\<forall>c \<in> set (chunks_of example_policy f). \<exists>v. length_embed (chunk_text c) = Inr v)"
    by (simp add: length_embed_def)
  have h4: "\<forall>f \<in> set ?files. eligible example_policy (fst f) \<longrightarrow>
      (\<forall>c \<in> set (chunks_of example_policy f). other_embed (chunk_text c) = length_embed (chunk_text c))"
    by (simp add: example_policy_def chunks_of_def other_embed_def length_embed_def)
  from ingest_twice_same_index
    [of example_fs "''data/sample_logs''" ?files example_fs_later
        example_policy other_embed length_embed old_disk] h1 h4
  obtain d1 rep1 d2 rep2
    where r1: "snd (ingest length_embed example_policy example_fs ''data/sample_logs'' old_disk)
                 = Inr (d1, rep1)"
      and r2: "snd (ingest other_embed example_policy example_fs_later ''data/sample_logs'' d1)
                 = Inr (d2, rep2)"
      and e: "rep2 = rep1" "current d2 = current d1"
      and c: "(\<exists>f \<in> set ?files. eligible example_policy (fst f))
              \<and> (\<forall>f \<in> set ?files. eligible example_policy (fst f) \<longrightarrow>
                    (\<forall>c \<in> set (chunks_of example_policy f). \<exists>v. length_embed (chunk_text c) = Inr v))
            \<longrightarrow> failures rep1 = []"
    by blast
  from c h2 h3 have nf: "failures rep1 = []"
    by blast
  have ev: "case snd (ingest length_embed example_policy example_fs ''data/sample_logs'' old_disk) of
          Inl e \<Rightarrow> False
        | Inr (d1, rep1) \<Rightarrow>
            map snd (vector_index (current d1)) = [20, 21] \<and> staging d1 = None
            \<and> rep1 = \<lparr>files_processed = 1, chunks_created = 2, failures = []\<rparr>"
    by code_simp
  with r1 have v: "map snd (vector_index (current d1)) = [20, 21]" "staging d1 = None"
    "rep1 = \<lparr>files_processed = 1, chunks_created = 2, failures = []\<rparr>"
    by simp_all
  have "staging d2 = None"
    using r2 h1 v(2)
    by (auto simp: ingest_def example_policy_def Let_def split: prod.splits if_splits)
  with e v have "d2 = d1" by simp
  with r1 r2 e v show ?thesis
    by (intro exI [of _ d1] exI [of _ rep1]) simp
qed

end
